theory Spec2Isabelle
  imports Main "HOL-Library.Sublist"
begin

section \<open>Data model of the swarm orchestrator (src/src/swarm.ts)\<close>

text \<open>
  JSON-serialisable values. The swarm context (\<open>SWARM_CONTEXT extends object\<close>), the
  arguments of a tool call and a context patch are JavaScript objects: finite maps from
  property names to values. Object spread \<open>{...a, ...b}\<close> copies the properties of
  \<open>a\<close> and then those of \<open>b\<close>, so a key of \<open>b\<close> overwrites the same key of \<open>a\<close>.
\<close>

datatype json =
    JNull
  | JBool bool
  | JNum int
  | JStr string
  | JArr "json list"
  | JObj "string \<Rightarrow> json option"

type_synonym obj = "string \<Rightarrow> json option"

definition spread :: "obj \<Rightarrow> obj \<Rightarrow> obj" where
  "spread a b = a ++ b"

text \<open>
  What a \<open>throw\<close> carries: \<open>Thrown\<close> is an exception raised by a collaborator (the
  model-invocation engine, a tool executor, a handover executor), \<open>TypeError\<close> the
  runtime error of reading a property of \<open>undefined\<close> in the orchestrator itself.
\<close>

datatype error = Thrown string | TypeError

text \<open>
  The zod object schema of a tool's parameters, reduced to its \<open>shape\<close>: the declared
  property names with a type each. \<open>omit\<close> is zod's \<open>schema.omit({k: true})\<close>.
\<close>

datatype zodType = ZString | ZNumber | ZBoolean | ZObject

type_synonym zodShape = "string \<Rightarrow> zodType option"

definition SWARM_CONTEXT_PROPERTY_NAME :: string where
  "SWARM_CONTEXT_PROPERTY_NAME = ''swarmContext''"

definition omit :: "zodShape \<Rightarrow> string \<Rightarrow> zodShape" where
  "omit sh k = sh(k := None)"

text \<open>
  Modelled from the spec: the declarations of \<open>Agent\<close>, \<open>AgentTool\<close> and
  \<open>AgentHandoverTool\<close> (\<open>./agent\<close>) are not among the sources. An agent is used by
  swarm.ts through its \<open>name\<close>, its \<open>config.maxTurns\<close> (an optional number) and its
  \<open>tools\<close> (an optional record from tool name to tool). A tool is a tagged union on
  \<open>type\<close>: a \<open>'function'\<close> tool's executor returns \<open>{result, context?}\<close>, a
  \<open>'handover'\<close> tool's executor returns \<open>{agent, context?}\<close>; both carry a
  description and a parameter schema. An executor may throw (\<open>Inl\<close>). The agent's
  model, instructions and tool-choice policy are only handed on to the engine, which
  receives the agent itself. Agents are compared by value: the same object is the same
  value, and agents that differ as values are different objects.
\<close>

datatype agentTool =
    FunctionTool string zodShape "obj \<Rightarrow> error + (json \<times> obj option)"
  | HandoverTool string zodShape "obj \<Rightarrow> error + (agent \<times> obj option)"
and agent =
    Agent (agent_name: string) (agent_maxTurns: "int option")
      (agent_tools: "(string \<Rightarrow> agentTool option) option")

fun tool_description :: "agentTool \<Rightarrow> string" where
  "tool_description (FunctionTool d p ex) = d"
| "tool_description (HandoverTool d p ex) = d"

fun tool_parameters :: "agentTool \<Rightarrow> zodShape" where
  "tool_parameters (FunctionTool d p ex) = p"
| "tool_parameters (HandoverTool d p ex) = p"

fun isHandover :: "agentTool \<Rightarrow> bool" where
  "isHandover (FunctionTool d p ex) = False"
| "isHandover (HandoverTool d p ex) = True"

text \<open>
  Messages (\<open>SwarmMessage\<close>): a role, a content that is a string or an array of parts,
  and the \<open>sender\<close> the swarm adds. The parts are discriminated on \<open>type\<close>:
  \<open>'text'\<close>, \<open>'tool-call'\<close> (id, tool name, arguments) and \<open>'tool-result'\<close>
  (id, tool name, result).
\<close>

datatype role = User | Assistant | Tool | System

datatype part =
    TextPart string
  | ToolCallPart string string obj
  | ToolResultPart string string json

datatype messageContent = StringContent string | PartsContent "part list"

record message =
  role :: role
  content :: messageContent
  sender :: "string option"

text \<open>
  The model-invocation engine (\<open>generateText\<close> of the \<open>ai\<close> package) is an external
  collaborator and a parameter of the model. It is called with the active agent (for
  its model, its instructions rendered against the context and its tool choice), the
  wrapped tools, the step ceiling and the messages; it may run the wrapped executors,
  which read and replace the swarm's context, so it takes the context and returns the
  context it leaves. It returns a result or throws. In a result, \<open>response_messages\<close>
  is \<open>response.messages\<close>; the step observer \<open>onStepFinish\<close> is handed through to
  the engine and is part of it.
\<close>

datatype finishReason = Stop | Length | ContentFilter | ToolCalls | Error | Other | Unknown

datatype toolCall = ToolCall (toolCallId: string) (toolName: string) (args: obj)

datatype toolResult = ToolResult (resultCallId: string) (resultToolName: string) (resultPayload: json)

record engineResult =
  finishReason :: finishReason
  resultText :: string
  response_messages :: "message list"
  toolCalls :: "toolCall list"
  toolResults :: "toolResult list"

datatype coreTool =
  CoreTool (core_description: string) (core_parameters: zodShape)
    (core_execute: "(obj \<Rightarrow> obj \<Rightarrow> (error + json) \<times> obj) option")

record engineCall =
  call_agent :: agent
  call_tools :: "(string \<Rightarrow> coreTool option) option"
  call_maxSteps :: int
  call_messages :: "message list"

type_synonym engine = "engineCall \<Rightarrow> obj \<Rightarrow> (error + engineResult) \<times> obj"

text \<open>
  The fields of class \<open>Swarm\<close> that the turn loop reads and writes
  (\<open>defaultModel\<close> and \<open>name\<close> are only handed to the engine).
\<close>

record swarm =
  queen :: agent
  swarmContext :: obj
  messages :: "message list"
  maxTurns :: int
  returnToQueen :: bool
  activeAgent :: agent

record swarmOptions =
  so_queen :: agent
  so_initialContext :: obj
  so_messages :: "message list option"
  so_maxTurns :: "int option"
  so_returnToQueen :: "bool option"

datatype invocationInput = WithContent messageContent | WithMessages "message list"

record invocationOptions =
  contextUpdate :: "obj option"
  setAgent :: "agent option"
  io_maxTurns :: "int option"
  io_returnToQueen :: "bool option"
  io_input :: invocationInput

record invocationResult =
  out_finishReason :: finishReason
  out_activeAgent :: agent
  out_text :: string
  out_messages :: "message list"
  out_context :: obj

section \<open>Constructor, context store and overrides\<close>

text \<open>
  The constructor: \<open>options.maxTurns || 100\<close> replaces a missing and a zero ceiling
  by 100, \<open>!!options.returnToQueen\<close> reads a missing flag as false.
\<close>

definition newSwarm :: "swarmOptions \<Rightarrow> swarm" where
  "newSwarm options =
     \<lparr> queen = so_queen options,
       swarmContext = so_initialContext options,
       messages = (case so_messages options of None \<Rightarrow> [] | Some ms \<Rightarrow> ms),
       maxTurns = (case so_maxTurns options of None \<Rightarrow> 100 | Some n \<Rightarrow> if n = 0 then 100 else n),
       returnToQueen = (case so_returnToQueen options of None \<Rightarrow> False | Some b \<Rightarrow> b),
       activeAgent = so_queen options \<rparr>"

definition getContext :: "swarm \<Rightarrow> obj" where
  "getContext s = swarmContext s"

definition updateContext :: "obj \<Rightarrow> swarm \<Rightarrow> obj \<times> swarm" where
  "updateContext update s =
     (let s' = s\<lparr>swarmContext := spread (swarmContext s) update\<rparr>
      in (swarmContext s', s'))"

definition handleUpdatesAndOverrides :: "invocationOptions \<Rightarrow> swarm \<Rightarrow> swarm" where
  "handleUpdatesAndOverrides invocationOptions s =
     (let s1 = (case setAgent invocationOptions of
                  Some a \<Rightarrow> s\<lparr>activeAgent := a\<rparr>
                | None \<Rightarrow> s);
          s2 = (case io_input invocationOptions of
                  WithMessages ms \<Rightarrow> s1\<lparr>messages := ms\<rparr>
                | WithContent c \<Rightarrow> s1)
      in s2\<lparr>swarmContext :=
              spread (swarmContext s2)
                (case contextUpdate invocationOptions of None \<Rightarrow> Map.empty | Some u \<Rightarrow> u)\<rparr>)"

section \<open>Tool adapter: wrapTools\<close>

text \<open>
  \<open>functionWrapper\<close> runs the agent's executor and, when the result carries a context
  patch, merges it into the swarm's context; only \<open>result\<close> goes back to the engine.
  A wrapped executor is a closure over the swarm: it takes the context and returns the
  context it leaves.
\<close>

definition functionWrapper ::
  "(obj \<Rightarrow> error + (json \<times> obj option)) \<Rightarrow> obj \<Rightarrow> obj \<Rightarrow> (error + json) \<times> obj" where
  "functionWrapper ex a ctx =
     (case ex a of
        Inl e \<Rightarrow> (Inl e, ctx)
      | Inr (r, patch) \<Rightarrow>
          (Inr r, (case patch of None \<Rightarrow> ctx | Some c \<Rightarrow> spread ctx c)))"

text \<open>
  One entry of \<open>wrapTools\<close>. The parameters lose the context property when the shape
  declares it. For a function tool the executor is the function wrapper, fed the
  arguments plus the current context under the context property when that is declared.
  For a handover tool the executor built so far is overwritten by \<open>undefined\<close>
  (\<open>if (agentTool.type === 'handover') executor = undefined\<close>), so the wrapped tool
  is built by the branch of \<open>tool({...})\<close> that has no \<open>execute\<close>.
\<close>

definition wrapTool :: "agentTool \<Rightarrow> coreTool" where
  "wrapTool agentTool =
     (let declared = (tool_parameters agentTool SWARM_CONTEXT_PROPERTY_NAME \<noteq> None);
          parameters = (if declared
                        then omit (tool_parameters agentTool) SWARM_CONTEXT_PROPERTY_NAME
                        else tool_parameters agentTool);
          executor = (case agentTool of
                        FunctionTool d p ex \<Rightarrow>
                          if declared
                          then Some (\<lambda>a ctx.
                                 functionWrapper ex (a(SWARM_CONTEXT_PROPERTY_NAME \<mapsto> JObj ctx)) ctx)
                          else Some (functionWrapper ex)
                      | HandoverTool d p ex \<Rightarrow> None)
      in CoreTool (tool_description agentTool) parameters executor)"

definition wrapTools ::
  "(string \<Rightarrow> agentTool option) option \<Rightarrow> (string \<Rightarrow> coreTool option) option" where
  "wrapTools tools =
     (case tools of
        None \<Rightarrow> None
      | Some ts \<Rightarrow> Some (\<lambda>toolName. map_option wrapTool (ts toolName)))"

section \<open>The turn loop of generateText\<close>

definition tagSender :: "agent \<Rightarrow> message \<Rightarrow> message" where
  "tagSender a m = m\<lparr>sender := Some (agent_name a)\<rparr>"

definition assistantCount :: "message list \<Rightarrow> nat" where
  "assistantCount ms = length (filter (\<lambda>m. role m = Assistant) ms)"

text \<open>\<open>['stop', 'length', 'content-filter', 'error'].includes(finishReason)\<close>\<close>

definition isTerminal :: "finishReason \<Rightarrow> bool" where
  "isTerminal fr = (fr \<in> set [Stop, Length, ContentFilter, Error])"

text \<open>
  The calls whose id is not among the ids of the results the engine produced.
\<close>

definition unhandledToolCalls :: "engineResult \<Rightarrow> toolCall list" where
  "unhandledToolCalls lastResult =
     (let toolResultIds = map resultCallId (toolResults lastResult)
      in filter (\<lambda>tc. toolCallId tc \<notin> set toolResultIds) (toolCalls lastResult))"

text \<open>
  \<open>this._activeAgent.tools?.[toolCall.toolName].type === 'handover'\<close>: with no tool
  record the optional chain gives \<open>undefined\<close> and the test is false; with a tool
  record that lacks the name, reading \<open>.type\<close> of \<open>undefined\<close> throws.
\<close>

definition isHandoverCall :: "agent \<Rightarrow> toolCall \<Rightarrow> error + bool" where
  "isHandoverCall a tc =
     (case agent_tools a of
        None \<Rightarrow> Inr False
      | Some ts \<Rightarrow>
          (case ts (toolName tc) of
             None \<Rightarrow> Inl TypeError
           | Some t \<Rightarrow> Inr (isHandover t)))"

fun filterHandover :: "agent \<Rightarrow> toolCall list \<Rightarrow> error + toolCall list" where
  "filterHandover a [] = Inr []"
| "filterHandover a (tc # tcs) =
     (case isHandoverCall a tc of
        Inl e \<Rightarrow> Inl e
      | Inr b \<Rightarrow>
          (case filterHandover a tcs of
             Inl e \<Rightarrow> Inl e
           | Inr r \<Rightarrow> Inr (if b then tc # r else r)))"

definition findHandoverCalls :: "agent \<Rightarrow> engineResult \<Rightarrow> error + toolCall list" where
  "findHandoverCalls a lastResult = filterHandover a (unhandledToolCalls lastResult)"

text \<open>
  Executing the first handover call: the executor of the agent's own (unwrapped) tool
  is run on \<open>{...args, ...this.context}\<close>; its result sets the active agent and,
  when it carries a context, merges that into the swarm's context. The value is the
  synthesized tool result. The last branch (no such tool, or a function tool) cannot
  be reached from the loop, where the call has passed \<open>isHandoverCall\<close> on the same
  agent.
\<close>

definition handoverArgs :: "toolCall \<Rightarrow> swarm \<Rightarrow> obj" where
  "handoverArgs hc s = spread (args hc) (swarmContext s)"

definition handoverToolResult :: "toolCall \<Rightarrow> agent \<Rightarrow> part" where
  "handoverToolResult hc a =
     ToolResultPart (toolCallId hc) (toolName hc) (JStr (''Handing over to agent '' @ agent_name a))"

definition applyHandoverResult :: "toolCall \<Rightarrow> agent \<times> obj option \<Rightarrow> swarm \<Rightarrow> part \<times> swarm" where
  "applyHandoverResult hc r s =
     (let s1 = s\<lparr>activeAgent := fst r\<rparr>;
          s2 = (case snd r of
                  None \<Rightarrow> s1
                | Some c \<Rightarrow> s1\<lparr>swarmContext := spread (swarmContext s1) c\<rparr>)
      in (handoverToolResult hc (activeAgent s2), s2))"

definition executeHandover :: "toolCall \<Rightarrow> swarm \<Rightarrow> (error + part) \<times> swarm" where
  "executeHandover hc s =
     (case agent_tools (activeAgent s) of
        None \<Rightarrow> (Inl TypeError, s)
      | Some ts \<Rightarrow>
          (case ts (toolName hc) of
             Some (HandoverTool d p ex) \<Rightarrow>
               (case ex (handoverArgs hc s) of
                  Inl e \<Rightarrow> (Inl e, s)
                | Inr r \<Rightarrow> (case applyHandoverResult hc r s of (res, s') \<Rightarrow> (Inr res, s')))
           | _ \<Rightarrow> (Inl TypeError, s)))"

definition processHandoverCalls :: "toolCall list \<Rightarrow> swarm \<Rightarrow> (error + part option) \<times> swarm" where
  "processHandoverCalls handoverCalls s =
     (case handoverCalls of
        [] \<Rightarrow> (Inr None, s)
      | hc # rest \<Rightarrow>
          (case executeHandover hc s of
             (Inl e, s') \<Rightarrow> (Inl e, s')
           | (Inr r, s') \<Rightarrow> (Inr (Some r), s')))"

text \<open>
  Locating the tool message (\<open>responseMessages.at(-1)\<close> when its role is
  \<open>'tool'\<close>) and the assistant message (\<open>.at(-1)\<close> without a tool message,
  \<open>.at(-2)\<close> with one), as positions in \<open>responseMessages\<close>; \<open>None\<close> is
  \<open>undefined\<close>.
\<close>

definition locateToolMessage :: "message list \<Rightarrow> nat option" where
  "locateToolMessage rm =
     (if rm \<noteq> [] \<and> role (last rm) = Tool then Some (length rm - 1) else None)"

definition locateAssistantMessage :: "message list \<Rightarrow> nat option" where
  "locateAssistantMessage rm =
     (case locateToolMessage rm of
        None \<Rightarrow> (if rm = [] then None else Some (length rm - 1))
      | Some t \<Rightarrow> (if length rm < 2 then None else Some (length rm - 2)))"

text \<open>
  The synthesized result becomes a new tool message when there is none, and is pushed
  onto the content of the tool message otherwise.
\<close>

definition attachHandoverResult :: "part option \<Rightarrow> message list \<Rightarrow> error + message list" where
  "attachHandoverResult toolResultPart rm =
     (case toolResultPart of
        None \<Rightarrow> Inr rm
      | Some r \<Rightarrow>
          (case locateToolMessage rm of
             None \<Rightarrow> Inr (rm @ [\<lparr>role = Tool, content = PartsContent [r], sender = None\<rparr>])
           | Some i \<Rightarrow>
               (case content (rm ! i) of
                  PartsContent ps \<Rightarrow> Inr (rm[i := (rm ! i)\<lparr>content := PartsContent (ps @ [r])\<rparr>])
                | StringContent t \<Rightarrow> Inl TypeError)))"

text \<open>
  "clean out unused tool calls": the tool-call parts whose id is the id of a handover
  call after the first are filtered out of the assistant message's content, unless
  that content is a string. With no assistant message, reading \<open>.content\<close> throws.
\<close>

definition keepPart :: "string list \<Rightarrow> part \<Rightarrow> bool" where
  "keepPart unusedToolCallIds p =
     (case p of
        ToolCallPart cid n a \<Rightarrow> cid \<notin> set unusedToolCallIds
      | TextPart t \<Rightarrow> True
      | ToolResultPart cid n r \<Rightarrow> True)"

definition pruneUnusedToolCalls ::
  "toolCall list \<Rightarrow> nat option \<Rightarrow> message list \<Rightarrow> error + message list" where
  "pruneUnusedToolCalls handoverCalls assistantIndex rm =
     (case assistantIndex of
        None \<Rightarrow> Inl TypeError
      | Some i \<Rightarrow>
          (case content (rm ! i) of
             StringContent t \<Rightarrow> Inr rm
           | PartsContent ps \<Rightarrow>
               (let unusedToolCallIds = map toolCallId (drop 1 handoverCalls)
                in Inr (rm[i := (rm ! i)\<lparr>content := PartsContent (filter (keepPart unusedToolCallIds) ps)\<rparr>]))))"

definition recordHandover ::
  "toolCall list \<Rightarrow> part option \<Rightarrow> message list \<Rightarrow> error + message list" where
  "recordHandover handoverCalls toolResultPart rm =
     (let assistantIndex = locateAssistantMessage rm
      in case attachHandoverResult toolResultPart rm of
           Inl e \<Rightarrow> Inl e
         | Inr rm1 \<Rightarrow> pruneUnusedToolCalls handoverCalls assistantIndex rm1)"

text \<open>
  The forced return to the queen at the end of an iteration that did not break:
  \<open>initialAgent.config.maxTurns\<close> is truthy (set and not 0), equals the number of
  assistant messages of this engine result, and the assistant messages accumulated
  so far are fewer than the ceiling.
\<close>

definition forcedReturn :: "agent \<Rightarrow> engineResult \<Rightarrow> int \<Rightarrow> message list \<Rightarrow> swarm \<Rightarrow> swarm" where
  "forcedReturn initialAgent lastResult maxTotalSteps rm s =
     (if (case agent_maxTurns initialAgent of
            None \<Rightarrow> False
          | Some n \<Rightarrow> n \<noteq> 0 \<and> n = int (assistantCount (response_messages lastResult)))
         \<and> int (assistantCount rm) < maxTotalSteps
      then s\<lparr>activeAgent := queen s\<rparr>
      else s)"

text \<open>
  One pass through the body of the \<open>do ... while\<close>; \<open>rm\<close> is the local array
  \<open>responseMessages\<close>. The value is the error thrown, or the engine result, the
  accumulated response messages and whether the body left the loop by \<open>break\<close>;
  the swarm is returned as the body left it in either case.
\<close>

definition engineCallOf :: "int \<Rightarrow> message list \<Rightarrow> message list \<Rightarrow> swarm \<Rightarrow> engineCall" where
  "engineCallOf maxTotalSteps initialMessages rm s =
     \<lparr> call_agent = activeAgent s,
       call_tools = wrapTools (agent_tools (activeAgent s)),
       call_maxSteps = (case agent_maxTurns (activeAgent s) of Some n \<Rightarrow> n | None \<Rightarrow> maxTotalSteps),
       call_messages = initialMessages @ rm \<rparr>"

definition afterEngine ::
  "agent \<Rightarrow> int \<Rightarrow> engineResult \<Rightarrow> message list \<Rightarrow> swarm
     \<Rightarrow> (error + engineResult \<times> message list \<times> bool) \<times> swarm" where
  "afterEngine initialAgent maxTotalSteps lastResult rm s =
     (let rm1 = rm @ map (tagSender (activeAgent s)) (response_messages lastResult)
      in if isTerminal (finishReason lastResult) then (Inr (lastResult, rm1, True), s)
         else
           (case findHandoverCalls (activeAgent s) lastResult of
              Inl e \<Rightarrow> (Inl e, s)
            | Inr handoverCalls \<Rightarrow>
                (case processHandoverCalls handoverCalls s of
                   (Inl e, s1) \<Rightarrow> (Inl e, s1)
                 | (Inr toolResultPart, s1) \<Rightarrow>
                     (case recordHandover handoverCalls toolResultPart rm1 of
                        Inl e \<Rightarrow> (Inl e, s1)
                      | Inr rm2 \<Rightarrow>
                          (Inr (lastResult, rm2, False),
                           forcedReturn initialAgent lastResult maxTotalSteps rm2 s1)))))"

definition iteration ::
  "engine \<Rightarrow> int \<Rightarrow> message list \<Rightarrow> message list \<Rightarrow> swarm
     \<Rightarrow> (error + engineResult \<times> message list \<times> bool) \<times> swarm" where
  "iteration eng maxTotalSteps initialMessages rm s =
     (let initialAgent = activeAgent s
      in case eng (engineCallOf maxTotalSteps initialMessages rm s) (swarmContext s) of
           (Inl e, ctx) \<Rightarrow> (Inl e, s\<lparr>swarmContext := ctx\<rparr>)
         | (Inr lastResult, ctx) \<Rightarrow>
             afterEngine initialAgent maxTotalSteps lastResult rm (s\<lparr>swarmContext := ctx\<rparr>))"

text \<open>
  The loop. Nothing bounds the number of passes when the engine keeps returning no
  assistant message with a finish reason outside the four, so the model counts fuel:
  \<open>None\<close> is "still running when the fuel ran out".
\<close>

fun turnLoop ::
  "nat \<Rightarrow> engine \<Rightarrow> int \<Rightarrow> message list \<Rightarrow> message list \<Rightarrow> swarm
     \<Rightarrow> ((error + engineResult \<times> message list) \<times> swarm) option" where
  "turnLoop 0 eng maxTotalSteps initialMessages rm s = None"
| "turnLoop (Suc fuel) eng maxTotalSteps initialMessages rm s =
     (case iteration eng maxTotalSteps initialMessages rm s of
        (Inl e, s') \<Rightarrow> Some (Inl e, s')
      | (Inr (lastResult, rm', brk), s') \<Rightarrow>
          if brk \<or> \<not> int (assistantCount rm') < maxTotalSteps
          then Some (Inr (lastResult, rm'), s')
          else turnLoop fuel eng maxTotalSteps initialMessages rm' s')"

text \<open>
  \<open>generateText\<close>: overrides, the initial messages (the history, plus a user message
  made of the content when content was given), the loop, then the history update, the
  return to the queen under the swarm's flag and the returned record. A throw leaves
  the method from inside the loop.
\<close>

definition initialMessagesOf :: "invocationOptions \<Rightarrow> swarm \<Rightarrow> message list" where
  "initialMessagesOf options s =
     (case io_input options of
        WithMessages ms \<Rightarrow> messages s
      | WithContent c \<Rightarrow> messages s @ [\<lparr>role = User, content = c, sender = None\<rparr>])"

definition maxTotalStepsOf :: "invocationOptions \<Rightarrow> swarm \<Rightarrow> int" where
  "maxTotalStepsOf options s = (case io_maxTurns options of Some n \<Rightarrow> n | None \<Rightarrow> maxTurns s)"

definition finish :: "engineResult \<Rightarrow> message list \<Rightarrow> swarm \<Rightarrow> invocationResult \<times> swarm" where
  "finish lastResult rm s =
     (let s1 = s\<lparr>messages := messages s @ rm\<rparr>;
          s2 = (if returnToQueen s1 then s1\<lparr>activeAgent := queen s1\<rparr> else s1)
      in (\<lparr> out_finishReason = finishReason lastResult,
            out_activeAgent = activeAgent s2,
            out_text = resultText lastResult,
            out_messages = rm,
            out_context = swarmContext s2 \<rparr>, s2))"

definition runLoop ::
  "nat \<Rightarrow> engine \<Rightarrow> invocationOptions \<Rightarrow> swarm
     \<Rightarrow> ((error + engineResult \<times> message list) \<times> swarm) option" where
  "runLoop fuel eng options s =
     (let s0 = handleUpdatesAndOverrides options s
      in turnLoop fuel eng (maxTotalStepsOf options s0) (initialMessagesOf options s0) [] s0)"

definition generateText ::
  "nat \<Rightarrow> engine \<Rightarrow> invocationOptions \<Rightarrow> swarm \<Rightarrow> ((error + invocationResult) \<times> swarm) option" where
  "generateText fuel eng options s =
     (case runLoop fuel eng options s of
        None \<Rightarrow> None
      | Some (Inl e, s1) \<Rightarrow> Some (Inl e, s1)
      | Some (Inr (lastResult, rm), s1) \<Rightarrow>
          (case finish lastResult rm s1 of (out, s2) \<Rightarrow> Some (Inr out, s2)))"

section \<open>Reading a turn's record\<close>

text \<open>
  The ids of the tool-call parts and of the tool-result parts of a message; a string
  content has neither.
\<close>

definition callIdOf :: "part \<Rightarrow> string list" where
  "callIdOf p = (case p of ToolCallPart cid n a \<Rightarrow> [cid] | TextPart t \<Rightarrow> [] | ToolResultPart cid n r \<Rightarrow> [])"

definition resultIdOf :: "part \<Rightarrow> string list" where
  "resultIdOf p = (case p of ToolResultPart cid n r \<Rightarrow> [cid] | TextPart t \<Rightarrow> [] | ToolCallPart cid n a \<Rightarrow> [])"

definition partsOf :: "message \<Rightarrow> part list" where
  "partsOf m = (case content m of StringContent t \<Rightarrow> [] | PartsContent ps \<Rightarrow> ps)"

definition toolCallIdsOf :: "message \<Rightarrow> string list" where
  "toolCallIdsOf m = concat (map callIdOf (partsOf m))"

definition toolResultIdsOf :: "message \<Rightarrow> string list" where
  "toolResultIdsOf m = concat (map resultIdOf (partsOf m))"

text \<open>
  What the orchestrator relies on in an engine result: the response messages end with
  the last step's assistant message, followed by one tool message exactly when the
  engine produced tool results; the assistant message carries tool calls only under
  ids listed in \<open>toolCalls\<close>, and the tool message holds a result for every id listed
  in \<open>toolResults\<close>.
\<close>

definition lastStepConsistent :: "engineResult \<Rightarrow> bool" where
  "lastStepConsistent r =
     (case rev (response_messages r) of
        [] \<Rightarrow> False
      | m # before \<Rightarrow>
          if role m = Tool
          then (case before of
                  [] \<Rightarrow> False
                | am # earlier \<Rightarrow>
                    role am = Assistant
                    \<and> set (toolCallIdsOf am) \<subseteq> set (map toolCallId (toolCalls r))
                    \<and> set (map resultCallId (toolResults r)) \<subseteq> set (toolResultIdsOf m))
          else role m = Assistant
               \<and> toolResults r = []
               \<and> set (toolCallIdsOf m) \<subseteq> set (map toolCallId (toolCalls r)))"

section \<open>What a call produces\<close>






section \<open>Example agents, engine results and engines\<close>

text \<open>
  Agent B has a turn cap of 1 and no tools. The queen Q can hand over to B; M is like
  Q with a function tool, A like M with a cap of 1; E hands over with a tool that
  declares the context property and returns the arguments it received as its context
  patch; T's handover executor throws; F has a function tool that declares the
  context property and throws when it is handed the context.
\<close>

definition agentB :: agent where
  "agentB = Agent ''B'' (Some 1) None"

definition transferToB :: agentTool where
  "transferToB = HandoverTool ''transfer to B'' Map.empty (\<lambda>a. Inr (agentB, None))"

definition lookTool :: agentTool where
  "lookTool = FunctionTool ''look up'' Map.empty (\<lambda>a. Inr (JStr ''found'', None))"

definition echoTool :: agentTool where
  "echoTool =
     HandoverTool ''transfer to B'' [''swarmContext'' \<mapsto> ZObject, ''why'' \<mapsto> ZString]
       (\<lambda>a. Inr (agentB, Some a))"

definition brokenTool :: agentTool where
  "brokenTool = HandoverTool ''transfer to B'' Map.empty (\<lambda>a. Inl (Thrown ''nope''))"

definition failTool :: agentTool where
  "failTool =
     FunctionTool ''fails'' [''swarmContext'' \<mapsto> ZObject]
       (\<lambda>a. case a ''swarmContext'' of
               None \<Rightarrow> Inr (JNull, None)
             | Some v \<Rightarrow> Inl (Thrown ''nope''))"

definition agentF :: agent where
  "agentF = Agent ''F'' None (Some [''bad'' \<mapsto> failTool])"

definition agentQ :: agent where
  "agentQ = Agent ''Q'' None (Some [''toB'' \<mapsto> transferToB])"

definition agentA :: agent where
  "agentA = Agent ''A'' (Some 1) (Some [''toB'' \<mapsto> transferToB, ''look'' \<mapsto> lookTool])"

definition agentM :: agent where
  "agentM = Agent ''M'' None (Some [''toB'' \<mapsto> transferToB, ''look'' \<mapsto> lookTool])"

definition agentE :: agent where
  "agentE = Agent ''E'' None (Some [''toB'' \<mapsto> echoTool])"

definition agentT :: agent where
  "agentT = Agent ''T'' None (Some [''toB'' \<mapsto> brokenTool])"

definition exampleSwarm :: "agent \<Rightarrow> bool \<Rightarrow> swarm" where
  "exampleSwarm q flag =
     newSwarm \<lparr> so_queen = q, so_initialContext = [''k'' \<mapsto> JNum 5], so_messages = None,
                so_maxTurns = None, so_returnToQueen = Some flag \<rparr>"

definition contentOptions :: "bool option \<Rightarrow> invocationOptions" where
  "contentOptions flag =
     \<lparr> contextUpdate = None, setAgent = None, io_maxTurns = None, io_returnToQueen = flag,
       io_input = WithContent (StringContent ''hi'') \<rparr>"

definition userHi :: message where
  "userHi = \<lparr>role = User, content = StringContent ''hi'', sender = None\<rparr>"

text \<open>
  A turn that calls the handover tool once; the same turn reported with finish reason
  \<open>stop\<close>; a turn that answers in text; and a turn with a function call the engine
  answered and two handover calls.
\<close>

definition handoverTurn :: engineResult where
  "handoverTurn =
     \<lparr> finishReason = ToolCalls, resultText = [],
       response_messages =
         [\<lparr>role = Assistant, content = PartsContent [ToolCallPart ''c1'' ''toB'' Map.empty],
           sender = None\<rparr>],
       toolCalls = [ToolCall ''c1'' ''toB'' Map.empty],
       toolResults = [] \<rparr>"

definition stoppedHandoverTurn :: engineResult where
  "stoppedHandoverTurn = handoverTurn\<lparr>finishReason := Stop\<rparr>"

definition answerTurn :: engineResult where
  "answerTurn =
     \<lparr> finishReason = Stop, resultText = ''ok'',
       response_messages = [\<lparr>role = Assistant, content = StringContent ''ok'', sender = None\<rparr>],
       toolCalls = [],
       toolResults = [] \<rparr>"

definition mixedTurn :: engineResult where
  "mixedTurn =
     \<lparr> finishReason = ToolCalls, resultText = [],
       response_messages =
         [\<lparr>role = Assistant,
           content = PartsContent
             [TextPart ''t'', ToolCallPart ''c1'' ''look'' Map.empty,
              ToolCallPart ''c2'' ''toB'' Map.empty, ToolCallPart ''c3'' ''toB'' Map.empty],
           sender = None\<rparr>,
          \<lparr>role = Tool, content = PartsContent [ToolResultPart ''c1'' ''look'' (JStr ''found'')],
           sender = None\<rparr>],
       toolCalls =
         [ToolCall ''c1'' ''look'' Map.empty, ToolCall ''c2'' ''toB'' Map.empty,
          ToolCall ''c3'' ''toB'' Map.empty],
       toolResults = [ToolResult ''c1'' ''look'' (JStr ''found'')] \<rparr>"

definition constEngine :: "engineResult \<Rightarrow> engine" where
  "constEngine r call ctx = (Inr r, ctx)"

definition scriptedEngine :: engine where
  "scriptedEngine call ctx =
     (if agent_name (call_agent call) = ''B'' then (Inr answerTurn, ctx)
      else (Inr handoverTurn, ctx))"

definition failingEngine :: engine where
  "failingEngine call ctx =
     (if agent_name (call_agent call) = ''B'' then (Inl (Thrown ''boom''), ctx)
      else (Inr handoverTurn, ctx))"

text \<open>
  The queen hands over to B, B answers: three response messages, B active at the end
  of the loop.
\<close>

definition handoverRecord :: "message list" where
  "handoverRecord =
     [\<lparr>role = Assistant, content = PartsContent [ToolCallPart ''c1'' ''toB'' Map.empty],
        sender = Some ''Q''\<rparr>,
      \<lparr>role = Tool,
        content = PartsContent [ToolResultPart ''c1'' ''toB'' (JStr ''Handing over to agent B'')],
        sender = None\<rparr>,
      \<lparr>role = Assistant, content = StringContent ''ok'', sender = Some ''B''\<rparr>]"

text \<open>
  The record of \<open>mixedTurn\<close> after agent M's turn, and the record of
  \<open>stoppedHandoverTurn\<close> after the queen's.
\<close>

definition mixedRecord :: "message list" where
  "mixedRecord =
     [\<lparr>role = Assistant,
        content = PartsContent
          [TextPart ''t'', ToolCallPart ''c1'' ''look'' Map.empty,
           ToolCallPart ''c2'' ''toB'' Map.empty],
        sender = Some ''M''\<rparr>,
      \<lparr>role = Tool,
        content = PartsContent
          [ToolResultPart ''c1'' ''look'' (JStr ''found''),
           ToolResultPart ''c2'' ''toB'' (JStr ''Handing over to agent B'')],
        sender = Some ''M''\<rparr>]"

definition orphanRecord :: "message list" where
  "orphanRecord =
     [\<lparr>role = Assistant, content = PartsContent [ToolCallPart ''c1'' ''toB'' Map.empty],
        sender = Some ''Q''\<rparr>]"

section \<open>Frame properties of the loop\<close>

text \<open>
  No step of the loop writes the stored history, the queen, the swarm's flag or its
  ceiling: they change only before the loop (overrides) and after it.
\<close>

lemma applyHandoverResult_frame:
  "messages (snd (applyHandoverResult hc r s)) = messages s
   \<and> queen (snd (applyHandoverResult hc r s)) = queen s
   \<and> returnToQueen (snd (applyHandoverResult hc r s)) = returnToQueen s
   \<and> maxTurns (snd (applyHandoverResult hc r s)) = maxTurns s"
  by (simp add: applyHandoverResult_def Let_def split: option.splits)

lemma executeHandover_frame:
  "messages (snd (executeHandover hc s)) = messages s
   \<and> queen (snd (executeHandover hc s)) = queen s
   \<and> returnToQueen (snd (executeHandover hc s)) = returnToQueen s
   \<and> maxTurns (snd (executeHandover hc s)) = maxTurns s"
proof (cases "agent_tools (activeAgent s)")
  case None
  then show ?thesis by (simp add: executeHandover_def)
next
  case (Some ts)
  show ?thesis
  proof (cases "ts (toolName hc)")
    case None
    with Some show ?thesis by (simp add: executeHandover_def)
  next
    case tool: (Some t)
    show ?thesis
    proof (cases t)
      case (FunctionTool d p ex)
      with Some tool show ?thesis by (simp add: executeHandover_def)
    next
      case (HandoverTool d p ex)
      show ?thesis
      proof (cases "ex (handoverArgs hc s)")
        case (Inl e)
        with Some tool HandoverTool show ?thesis by (simp add: executeHandover_def)
      next
        case (Inr r)
        with Some tool HandoverTool applyHandoverResult_frame [of hc r s] show ?thesis
          by (cases "applyHandoverResult hc r s") (simp add: executeHandover_def)
      qed
    qed
  qed
qed

lemma processHandoverCalls_frame:
  "messages (snd (processHandoverCalls hcs s)) = messages s
   \<and> queen (snd (processHandoverCalls hcs s)) = queen s
   \<and> returnToQueen (snd (processHandoverCalls hcs s)) = returnToQueen s
   \<and> maxTurns (snd (processHandoverCalls hcs s)) = maxTurns s"
proof (cases hcs)
  case Nil
  then show ?thesis by (simp add: processHandoverCalls_def)
next
  case (Cons hc rest)
  obtain v s1 where ex: "executeHandover hc s = (v, s1)" by (cases "executeHandover hc s")
  with executeHandover_frame [of hc s] Cons show ?thesis
    by (cases v) (simp_all add: processHandoverCalls_def)
qed

lemma forcedReturn_frame:
  "messages (forcedReturn a r n rm s) = messages s
   \<and> queen (forcedReturn a r n rm s) = queen s
   \<and> returnToQueen (forcedReturn a r n rm s) = returnToQueen s
   \<and> maxTurns (forcedReturn a r n rm s) = maxTurns s"
  by (simp add: forcedReturn_def)

lemma afterEngine_frame:
  "messages (snd (afterEngine a n r rm s)) = messages s
   \<and> queen (snd (afterEngine a n r rm s)) = queen s
   \<and> returnToQueen (snd (afterEngine a n r rm s)) = returnToQueen s
   \<and> maxTurns (snd (afterEngine a n r rm s)) = maxTurns s"
proof (cases "isTerminal (finishReason r)")
  case True
  then show ?thesis by (simp add: afterEngine_def Let_def)
next
  case nt: False
  show ?thesis
  proof (cases "findHandoverCalls (activeAgent s) r")
    case (Inl e)
    with nt show ?thesis by (simp add: afterEngine_def Let_def)
  next
    case (Inr hcs)
    obtain v s1 where p: "processHandoverCalls hcs s = (v, s1)"
      by (cases "processHandoverCalls hcs s")
    from processHandoverCalls_frame [of hcs s] p
    have fr: "messages s1 = messages s \<and> queen s1 = queen s
        \<and> returnToQueen s1 = returnToQueen s \<and> maxTurns s1 = maxTurns s" by simp
    show ?thesis
    proof (cases v)
      case (Inl e)
      with nt Inr p fr show ?thesis by (simp add: afterEngine_def Let_def)
    next
      case (Inr hr)
      with nt \<open>findHandoverCalls (activeAgent s) r = Inr hcs\<close> p fr forcedReturn_frame show ?thesis
        by (simp add: afterEngine_def Let_def split: sum.splits)
    qed
  qed
qed

lemma iteration_frame:
  "messages (snd (iteration eng n im rm s)) = messages s
   \<and> queen (snd (iteration eng n im rm s)) = queen s
   \<and> returnToQueen (snd (iteration eng n im rm s)) = returnToQueen s
   \<and> maxTurns (snd (iteration eng n im rm s)) = maxTurns s"
proof -
  obtain v ctx where e: "eng (engineCallOf n im rm s) (swarmContext s) = (v, ctx)"
    by (cases "eng (engineCallOf n im rm s) (swarmContext s)")
  show ?thesis
  proof (cases v)
    case (Inl err)
    with e show ?thesis by (simp add: iteration_def Let_def)
  next
    case (Inr r)
    with e afterEngine_frame [of "activeAgent s" n r rm "s\<lparr>swarmContext := ctx\<rparr>"]
    show ?thesis by (simp add: iteration_def Let_def)
  qed
qed

lemma turnLoop_frame:
  "turnLoop fuel eng n im rm s = Some (v, s') \<Longrightarrow>
     messages s' = messages s \<and> queen s' = queen s
     \<and> returnToQueen s' = returnToQueen s \<and> maxTurns s' = maxTurns s"
proof (induction fuel arbitrary: rm s)
  case 0
  then show ?case by simp
next
  case (Suc fuel)
  obtain w s1 where it: "iteration eng n im rm s = (w, s1)"
    by (cases "iteration eng n im rm s")
  from iteration_frame [of eng n im rm s] it
  have fr: "messages s1 = messages s \<and> queen s1 = queen s
      \<and> returnToQueen s1 = returnToQueen s \<and> maxTurns s1 = maxTurns s" by simp
  show ?case
  proof (cases w)
    case (Inl e)
    with Suc.prems it fr show ?thesis by auto
  next
    case (Inr t)
    obtain r rm' brk where t: "t = (r, rm', brk)" by (cases t)
    show ?thesis
    proof (cases "brk \<or> \<not> int (assistantCount rm') < n")
      case True
      with Suc.prems it Inr t fr show ?thesis by auto
    next
      case False
      with Suc.prems it Inr t have "turnLoop fuel eng n im rm' s1 = Some (v, s')" by simp
      from Suc.IH [OF this] fr show ?thesis by simp
    qed
  qed
qed

lemma handleUpdatesAndOverrides_frame:
  "queen (handleUpdatesAndOverrides options s) = queen s
   \<and> returnToQueen (handleUpdatesAndOverrides options s) = returnToQueen s
   \<and> maxTurns (handleUpdatesAndOverrides options s) = maxTurns s
   \<and> messages (handleUpdatesAndOverrides options s)
       = (case io_input options of WithMessages ms \<Rightarrow> ms | WithContent c \<Rightarrow> messages s)"
  by (simp add: handleUpdatesAndOverrides_def Let_def split: option.splits invocationInput.splits)

lemma runLoop_frame:
  "runLoop fuel eng options s = Some (v, s') \<Longrightarrow>
     messages s' = messages (handleUpdatesAndOverrides options s) \<and> queen s' = queen s
     \<and> returnToQueen s' = returnToQueen s"
  using turnLoop_frame [of fuel eng _ _ "[]" "handleUpdatesAndOverrides options s" v s']
    handleUpdatesAndOverrides_frame [of options s]
  by (simp add: runLoop_def Let_def)

text \<open>
  A result does not depend on the fuel beyond there being enough of it.
\<close>

lemma turnLoop_more_fuel:
  "turnLoop fuel eng n im rm s = Some v \<Longrightarrow> turnLoop (Suc fuel) eng n im rm s = Some v"
proof (induction fuel arbitrary: rm s)
  case 0
  then show ?case by simp
next
  case (Suc fuel)
  obtain w s1 where it: "iteration eng n im rm s = (w, s1)"
    by (cases "iteration eng n im rm s")
  show ?case
  proof (cases w)
    case (Inl e)
    with Suc.prems it show ?thesis by simp
  next
    case (Inr t)
    obtain r rm' brk where t: "t = (r, rm', brk)" by (cases t)
    show ?thesis
    proof (cases "brk \<or> \<not> int (assistantCount rm') < n")
      case True
      with Suc.prems it Inr t show ?thesis by auto
    next
      case False
      with Suc.prems it Inr t have "turnLoop fuel eng n im rm' s1 = Some v" by simp
      from Suc.IH [OF this] it Inr t False show ?thesis by simp
    qed
  qed
qed

lemma generateText_more_fuel:
  "generateText fuel eng options s = Some v \<Longrightarrow> generateText (Suc fuel) eng options s = Some v"
proof -
  assume g: "generateText fuel eng options s = Some v"
  then obtain w where rl: "runLoop fuel eng options s = Some w"
    by (auto simp: generateText_def split: option.splits)
  then have "runLoop (Suc fuel) eng options s = Some w"
    unfolding runLoop_def Let_def by (rule turnLoop_more_fuel)
  with g rl show ?thesis by (simp add: generateText_def)
qed

section \<open>The examples, evaluated\<close>

lemmas loop_defs =
  generateText_def runLoop_def finish_def maxTotalStepsOf_def initialMessagesOf_def
  handleUpdatesAndOverrides_def iteration_def afterEngine_def engineCallOf_def forcedReturn_def
  recordHandover_def pruneUnusedToolCalls_def keepPart_def attachHandoverResult_def
  locateAssistantMessage_def locateToolMessage_def processHandoverCalls_def executeHandover_def
  applyHandoverResult_def handoverToolResult_def handoverArgs_def findHandoverCalls_def isHandoverCall_def
  unhandledToolCalls_def isTerminal_def assistantCount_def tagSender_def wrapTools_def
  spread_def newSwarm_def Let_def

lemmas example_defs =
  agentB_def agentQ_def agentA_def agentM_def agentE_def agentF_def failTool_def agentT_def transferToB_def lookTool_def
  echoTool_def brokenTool_def exampleSwarm_def contentOptions_def userHi_def handoverTurn_def
  stoppedHandoverTurn_def answerTurn_def mixedTurn_def constEngine_def scriptedEngine_def
  failingEngine_def handoverRecord_def mixedRecord_def orphanRecord_def

lemma runLoop_scripted:
  "runLoop (Suc (Suc (Suc 0))) scriptedEngine (contentOptions f) (exampleSwarm agentQ flag)
     = Some (Inr (answerTurn, handoverRecord), (exampleSwarm agentQ flag)\<lparr>activeAgent := agentB\<rparr>)"
  by (simp add: loop_defs example_defs handoverRecord_def)

lemma generateText_scripted:
  "generateText (Suc (Suc (Suc 0))) scriptedEngine (contentOptions f) (exampleSwarm agentQ flag)
     = Some (Inr \<lparr> out_finishReason = Stop,
                    out_activeAgent = (if flag then agentQ else agentB),
                    out_text = ''ok'',
                    out_messages = handoverRecord,
                    out_context = [''k'' \<mapsto> JNum 5] \<rparr>,
             (exampleSwarm agentQ flag)
               \<lparr>activeAgent := (if flag then agentQ else agentB), messages := handoverRecord\<rparr>)"
  by (simp add: generateText_def runLoop_scripted finish_def Let_def)
     (simp add: exampleSwarm_def newSwarm_def answerTurn_def)



lemma agentB_neq_agentQ: "agentB \<noteq> agentQ"
  by (simp add: agentB_def agentQ_def)

section \<open>Context store\<close>

text \<open>
  C8. For every context and patches \<open>p1\<close>, \<open>p2\<close>: after \<open>updateContext p1\<close> and then
  \<open>updateContext p2\<close>, every key of \<open>p2\<close> has the value of \<open>p2\<close>, every key of
  \<open>p1\<close> that is not a key of \<open>p2\<close> has the value of \<open>p1\<close>, and every other key
  keeps the value it had; the context the second call returns is the stored one.
\<close>

theorem updateContext_later_patch_wins:
  "(k \<in> dom p2 \<longrightarrow>
      swarmContext (snd (updateContext p2 (snd (updateContext p1 s)))) k = p2 k)
   \<and> (k \<in> dom p1 \<and> k \<notin> dom p2 \<longrightarrow>
      swarmContext (snd (updateContext p2 (snd (updateContext p1 s)))) k = p1 k)
   \<and> (k \<notin> dom p1 \<and> k \<notin> dom p2 \<longrightarrow>
      swarmContext (snd (updateContext p2 (snd (updateContext p1 s)))) k = swarmContext s k)
   \<and> fst (updateContext p2 (snd (updateContext p1 s)))
       = swarmContext (snd (updateContext p2 (snd (updateContext p1 s))))"
  by (auto simp: updateContext_def spread_def Let_def map_add_def split: option.splits)

text \<open>
  The spec's example: \<open>merge({a:1})\<close> then \<open>merge({a:2, b:3})\<close> on a context holding
  \<open>k\<close> gives \<open>a = 2\<close>, \<open>b = 3\<close> and leaves \<open>k\<close>.
\<close>

theorem updateContext_later_patch_wins_witness:
  "swarmContext (snd (updateContext [''a'' \<mapsto> JNum 2, ''b'' \<mapsto> JNum 3]
       (snd (updateContext [''a'' \<mapsto> JNum 1] (exampleSwarm agentQ False))))) ''a'' = Some (JNum 2)
   \<and> swarmContext (snd (updateContext [''a'' \<mapsto> JNum 2, ''b'' \<mapsto> JNum 3]
       (snd (updateContext [''a'' \<mapsto> JNum 1] (exampleSwarm agentQ False))))) ''b'' = Some (JNum 3)
   \<and> swarmContext (snd (updateContext [''a'' \<mapsto> JNum 2, ''b'' \<mapsto> JNum 3]
       (snd (updateContext [''a'' \<mapsto> JNum 1] (exampleSwarm agentQ False))))) ''k'' = Some (JNum 5)"
  using
    updateContext_later_patch_wins [of "''a''" "[''a'' \<mapsto> JNum 2, ''b'' \<mapsto> JNum 3]"
      "[''a'' \<mapsto> JNum 1]" "exampleSwarm agentQ False"]
    updateContext_later_patch_wins [of "''b''" "[''a'' \<mapsto> JNum 2, ''b'' \<mapsto> JNum 3]"
      "[''a'' \<mapsto> JNum 1]" "exampleSwarm agentQ False"]
    updateContext_later_patch_wins [of "''k''" "[''a'' \<mapsto> JNum 2, ''b'' \<mapsto> JNum 3]"
      "[''a'' \<mapsto> JNum 1]" "exampleSwarm agentQ False"]
  by (simp add: exampleSwarm_def newSwarm_def)

section \<open>Tool adapter\<close>

text \<open>
  C7. For every handover tool of the tool record, the entry \<open>wrapTools\<close> builds for
  the engine has the tool's description, its parameters without the context property
  when the shape declares it (and unchanged otherwise), and no executor. Omitting
  removes the context property and keeps every other one.
\<close>

theorem wrapTools_handover_has_no_executor:
  assumes "ts n = Some (HandoverTool d p ex)"
  shows "map_option (\<lambda>w. w n) (wrapTools (Some ts))
           = Some (Some (CoreTool d
               (if p SWARM_CONTEXT_PROPERTY_NAME \<noteq> None
                then omit p SWARM_CONTEXT_PROPERTY_NAME else p)
               None))
         \<and> omit p SWARM_CONTEXT_PROPERTY_NAME SWARM_CONTEXT_PROPERTY_NAME = None
         \<and> (k \<noteq> SWARM_CONTEXT_PROPERTY_NAME \<longrightarrow> omit p SWARM_CONTEXT_PROPERTY_NAME k = p k)"
  using assms by (simp add: wrapTools_def wrapTool_def omit_def Let_def)

theorem wrapTools_handover_has_no_executor_witness:
  "map_option (\<lambda>w. w ''toB'') (wrapTools (agent_tools agentE))
     = Some (Some (CoreTool ''transfer to B''
         (omit [''swarmContext'' \<mapsto> ZObject, ''why'' \<mapsto> ZString] ''swarmContext'') None))
   \<and> omit [''swarmContext'' \<mapsto> ZObject, ''why'' \<mapsto> ZString] ''swarmContext'' ''why''
       = Some ZString
   \<and> omit [''swarmContext'' \<mapsto> ZObject, ''why'' \<mapsto> ZString] ''swarmContext'' ''swarmContext''
       = None"
  using wrapTools_handover_has_no_executor [of "[''toB'' \<mapsto> echoTool]" "''toB''"
      "''transfer to B''" "[''swarmContext'' \<mapsto> ZObject, ''why'' \<mapsto> ZString]"
      "\<lambda>a. Inr (agentB, Some a)" "''why''"]
  by (simp add: agentE_def echoTool_def SWARM_CONTEXT_PROPERTY_NAME_def)

section \<open>Handover protocol\<close>

text \<open>
  C10. The executor of a handover tool is applied to the call's arguments spread
  together with the whole context, and to nothing else: what \<open>executeHandover\<close> does
  is a function of the executor's value at \<open>handoverArgs\<close>. In those arguments a key
  of the context has the context's value, also when the call's arguments have the key
  too; every other key has the value of the call's arguments.
\<close>

theorem handover_executor_receives_args_under_context:
  assumes "agent_tools (activeAgent s) = Some ts"
    and "ts (toolName hc) = Some (HandoverTool d p ex)"
  shows "executeHandover hc s
           = (case ex (handoverArgs hc s) of
                Inl e \<Rightarrow> (Inl e, s)
              | Inr r \<Rightarrow> (Inr (fst (applyHandoverResult hc r s)), snd (applyHandoverResult hc r s)))
         \<and> (k \<in> dom (swarmContext s) \<longrightarrow> handoverArgs hc s k = swarmContext s k)
         \<and> (k \<notin> dom (swarmContext s) \<longrightarrow> handoverArgs hc s k = args hc k)"
  using assms
  by (auto simp: executeHandover_def handoverArgs_def spread_def map_add_def
           split: sum.splits prod.splits option.splits)

text \<open>
  The echoing tool of agent E returns the arguments it received as its context patch:
  with the context \<open>{k: 5}\<close> and the call arguments \<open>{k: 1, why: 'x'}\<close> it received
  \<open>k = 5\<close> and \<open>why = 'x'\<close>.
\<close>

theorem handover_executor_receives_args_under_context_witness:
  "handoverArgs (ToolCall ''c1'' ''toB'' [''k'' \<mapsto> JNum 1, ''why'' \<mapsto> JStr ''x''])
       (exampleSwarm agentE False) ''k'' = Some (JNum 5)
   \<and> handoverArgs (ToolCall ''c1'' ''toB'' [''k'' \<mapsto> JNum 1, ''why'' \<mapsto> JStr ''x''])
       (exampleSwarm agentE False) ''why'' = Some (JStr ''x'')
   \<and> swarmContext (snd (executeHandover
         (ToolCall ''c1'' ''toB'' [''k'' \<mapsto> JNum 1, ''why'' \<mapsto> JStr ''x''])
         (exampleSwarm agentE False))) ''k'' = Some (JNum 5)
   \<and> swarmContext (snd (executeHandover
         (ToolCall ''c1'' ''toB'' [''k'' \<mapsto> JNum 1, ''why'' \<mapsto> JStr ''x''])
         (exampleSwarm agentE False))) ''why'' = Some (JStr ''x'')"
  using
    handover_executor_receives_args_under_context [of "exampleSwarm agentE False"
      "[''toB'' \<mapsto> echoTool]"
      "ToolCall ''c1'' ''toB'' [''k'' \<mapsto> JNum 1, ''why'' \<mapsto> JStr ''x'']"
      "''transfer to B''" "[''swarmContext'' \<mapsto> ZObject, ''why'' \<mapsto> ZString]"
      "\<lambda>a. Inr (agentB, Some a)" "''k''"]
    handover_executor_receives_args_under_context [of "exampleSwarm agentE False"
      "[''toB'' \<mapsto> echoTool]"
      "ToolCall ''c1'' ''toB'' [''k'' \<mapsto> JNum 1, ''why'' \<mapsto> JStr ''x'']"
      "''transfer to B''" "[''swarmContext'' \<mapsto> ZObject, ''why'' \<mapsto> ZString]"
      "\<lambda>a. Inr (agentB, Some a)" "''why''"]
  by (simp add: exampleSwarm_def newSwarm_def agentE_def echoTool_def handoverArgs_def
        applyHandoverResult_def handoverToolResult_def spread_def Let_def)

text \<open>
  C6. When the first handover call of a turn is executed and its executor returns an
  agent, with or without a context patch, that agent becomes the active agent. When
  the result carries no patch, the context is the context before the handover, and
  the swarm differs from the one before in its active agent only; when it carries
  one, the context is the old one with the patch spread over it.
\<close>

theorem handover_sets_agent_and_keeps_context_without_patch:
  assumes "agent_tools (activeAgent s) = Some ts"
    and "ts (toolName hc) = Some (HandoverTool d p ex)"
    and "ex (handoverArgs hc s) = Inr (b, patch)"
  shows "activeAgent (snd (processHandoverCalls (hc # rest) s)) = b
         \<and> (patch = None \<longrightarrow>
              swarmContext (snd (processHandoverCalls (hc # rest) s)) = swarmContext s
              \<and> snd (processHandoverCalls (hc # rest) s) = s\<lparr>activeAgent := b\<rparr>)
         \<and> (\<forall>c. patch = Some c \<longrightarrow>
              swarmContext (snd (processHandoverCalls (hc # rest) s)) = spread (swarmContext s) c)"
  using assms
  by (cases patch)
     (simp_all add: processHandoverCalls_def executeHandover_def applyHandoverResult_def Let_def)

theorem handover_sets_agent_and_keeps_context_without_patch_witness:
  "activeAgent (snd (processHandoverCalls [ToolCall ''c1'' ''toB'' Map.empty]
       (exampleSwarm agentQ False))) = agentB
   \<and> swarmContext (snd (processHandoverCalls [ToolCall ''c1'' ''toB'' Map.empty]
       (exampleSwarm agentQ False))) = swarmContext (exampleSwarm agentQ False)
   \<and> snd (processHandoverCalls [ToolCall ''c1'' ''toB'' Map.empty] (exampleSwarm agentQ False))
       = (exampleSwarm agentQ False)\<lparr>activeAgent := agentB\<rparr>"
  using handover_sets_agent_and_keeps_context_without_patch [of "exampleSwarm agentQ False"
      "[''toB'' \<mapsto> transferToB]" "ToolCall ''c1'' ''toB'' Map.empty" "''transfer to B''"
      Map.empty "\<lambda>a. Inr (agentB, None)" agentB None "[]"]
  by (simp add: exampleSwarm_def newSwarm_def agentQ_def transferToB_def)

section \<open>One turn of the loop\<close>

lemma afterEngine_continue:
  assumes "afterEngine a n r rm s = (Inr (r', rm', brk), s')"
    and "\<not> isTerminal (finishReason r)"
  shows "\<exists>hcs hr s1.
           findHandoverCalls (activeAgent s) r = Inr hcs
           \<and> processHandoverCalls hcs s = (Inr hr, s1)
           \<and> recordHandover hcs hr (rm @ map (tagSender (activeAgent s)) (response_messages r)) = Inr rm'
           \<and> s' = forcedReturn a r n rm' s1 \<and> r' = r \<and> \<not> brk"
proof (cases "findHandoverCalls (activeAgent s) r")
  case (Inl e)
  with assms show ?thesis by (simp add: afterEngine_def Let_def)
next
  case hcs: (Inr hcs)
  obtain v s1 where p: "processHandoverCalls hcs s = (v, s1)"
    by (cases "processHandoverCalls hcs s")
  show ?thesis
  proof (cases v)
    case (Inl e)
    with assms hcs p show ?thesis by (simp add: afterEngine_def Let_def)
  next
    case hr: (Inr hr)
    show ?thesis
    proof (cases "recordHandover hcs hr (rm @ map (tagSender (activeAgent s)) (response_messages r))")
      case (Inl e)
      with assms hcs p hr show ?thesis by (simp add: afterEngine_def Let_def)
    next
      case (Inr rm2)
      with assms hcs p hr show ?thesis by (auto simp: afterEngine_def Let_def)
    qed
  qed
qed

lemma iteration_Inr:
  assumes "iteration eng n im rm s = (Inr (r', rm', brk), s')"
  shows "\<exists>r ctx. eng (engineCallOf n im rm s) (swarmContext s) = (Inr r, ctx)
           \<and> afterEngine (activeAgent s) n r rm (s\<lparr>swarmContext := ctx\<rparr>) = (Inr (r', rm', brk), s')"
proof -
  obtain v ctx where e: "eng (engineCallOf n im rm s) (swarmContext s) = (v, ctx)"
    by (cases "eng (engineCallOf n im rm s) (swarmContext s)")
  show ?thesis
  proof (cases v)
    case (Inl err)
    with e assms show ?thesis by (simp add: iteration_def Let_def)
  next
    case (Inr r)
    with e assms show ?thesis by (simp add: iteration_def Let_def)
  qed
qed

lemma afterEngine_result:
  assumes "afterEngine a n r rm s = (Inr (r', rm', brk), s')"
  shows "r' = r"
proof (cases "isTerminal (finishReason r)")
  case True
  with assms show ?thesis by (simp add: afterEngine_def Let_def)
next
  case False
  from afterEngine_continue [OF assms False] show ?thesis by blast
qed

text \<open>
  C2, as the code has it. Take an iteration that ends without a throw. When its
  engine result has none of the finish reasons stop, length, content-filter and
  error: if the agent active at its start has a turn cap other than 0, the engine
  result has exactly that many assistant messages, and the assistant messages
  accumulated so far are fewer than the ceiling, then the active agent at the end of
  the iteration is the queen, whatever a handover in the iteration selected and also
  without a handover. When its engine result has one of the four finish reasons, the
  iteration leaves the loop by \<open>break\<close> and the active agent at its end is the one
  at its start, with or without a cap.
\<close>

theorem forced_return_to_queen_after_unfinished_turn:
  assumes "iteration eng mts im rm s = (Inr (r, rm', brk), s')"
  shows "(\<not> isTerminal (finishReason r)
            \<and> agent_maxTurns (activeAgent s) = Some n
            \<and> n \<noteq> 0
            \<and> n = int (assistantCount (response_messages r))
            \<and> int (assistantCount rm') < mts \<longrightarrow>
          activeAgent s' = queen s)
         \<and> (isTerminal (finishReason r) \<longrightarrow> brk \<and> activeAgent s' = activeAgent s)"
proof -
  from iteration_Inr [OF assms] obtain r0 ctx where
    ae: "afterEngine (activeAgent s) mts r0 rm (s\<lparr>swarmContext := ctx\<rparr>) = (Inr (r, rm', brk), s')"
    by blast
  from afterEngine_result [OF ae] have r0: "r0 = r" by simp
  have forced: "\<not> isTerminal (finishReason r)
            \<and> agent_maxTurns (activeAgent s) = Some n
            \<and> n \<noteq> 0
            \<and> n = int (assistantCount (response_messages r))
            \<and> int (assistantCount rm') < mts \<longrightarrow>
          activeAgent s' = queen s"
  proof
    assume h: "\<not> isTerminal (finishReason r)
            \<and> agent_maxTurns (activeAgent s) = Some n
            \<and> n \<noteq> 0
            \<and> n = int (assistantCount (response_messages r))
            \<and> int (assistantCount rm') < mts"
    then have nt: "\<not> isTerminal (finishReason r)" by simp
    from afterEngine_continue [OF ae [unfolded r0] nt] obtain hcs hr s1 where
      p: "processHandoverCalls hcs (s\<lparr>swarmContext := ctx\<rparr>) = (Inr hr, s1)" and
      s': "s' = forcedReturn (activeAgent s) r mts rm' s1"
      by auto
    from processHandoverCalls_frame [of hcs "s\<lparr>swarmContext := ctx\<rparr>"] p
    have "queen s1 = queen s" by simp
    with s' h show "activeAgent s' = queen s" by (simp add: forcedReturn_def)
  qed
  have stopped: "isTerminal (finishReason r) \<longrightarrow> brk \<and> activeAgent s' = activeAgent s"
    using ae [unfolded r0] by (auto simp: afterEngine_def Let_def)
  from forced stopped show ?thesis by simp
qed

text \<open>
  Agent A (cap 1) is active and hands over to B in a turn of one assistant message:
  the handover selects B, and the iteration ends with the queen Q active. Agent B
  (cap 1) is active and answers with finish reason \<open>stop\<close>: the iteration breaks
  and B stays active.
\<close>

theorem forced_return_to_queen_after_unfinished_turn_witness:
  "iteration (constEngine handoverTurn) 100 [userHi] []
       ((exampleSwarm agentQ False)\<lparr>activeAgent := agentA\<rparr>)
     = (Inr (handoverTurn,
             [\<lparr>role = Assistant, content = PartsContent [ToolCallPart ''c1'' ''toB'' Map.empty],
                sender = Some ''A''\<rparr>,
              \<lparr>role = Tool,
                content = PartsContent [ToolResultPart ''c1'' ''toB'' (JStr ''Handing over to agent B'')],
                sender = None\<rparr>],
             False),
        (exampleSwarm agentQ False)\<lparr>activeAgent := agentQ\<rparr>)
   \<and> \<not> isTerminal (finishReason handoverTurn)
   \<and> agent_maxTurns (activeAgent ((exampleSwarm agentQ False)\<lparr>activeAgent := agentA\<rparr>)) = Some 1
   \<and> int (assistantCount (response_messages handoverTurn)) = 1
   \<and> activeAgent (snd (processHandoverCalls [ToolCall ''c1'' ''toB'' Map.empty]
         ((exampleSwarm agentQ False)\<lparr>activeAgent := agentA\<rparr>))) = agentB
   \<and> activeAgent (snd (iteration (constEngine handoverTurn) 100 [userHi] []
         ((exampleSwarm agentQ False)\<lparr>activeAgent := agentA\<rparr>)))
       = queen ((exampleSwarm agentQ False)\<lparr>activeAgent := agentA\<rparr>)
   \<and> iteration (constEngine answerTurn) 100 [userHi] []
         ((exampleSwarm agentQ False)\<lparr>activeAgent := agentB\<rparr>)
       = (Inr (answerTurn,
               [\<lparr>role = Assistant, content = StringContent ''ok'', sender = Some ''B''\<rparr>],
               True),
          (exampleSwarm agentQ False)\<lparr>activeAgent := agentB\<rparr>)
   \<and> isTerminal (finishReason answerTurn)
   \<and> activeAgent (snd (iteration (constEngine answerTurn) 100 [userHi] []
         ((exampleSwarm agentQ False)\<lparr>activeAgent := agentB\<rparr>)))
       = activeAgent ((exampleSwarm agentQ False)\<lparr>activeAgent := agentB\<rparr>)"
  using forced_return_to_queen_after_unfinished_turn
      [of "constEngine handoverTurn" 100 "[userHi]" "[]"
        "(exampleSwarm agentQ False)\<lparr>activeAgent := agentA\<rparr>" handoverTurn
        "[\<lparr>role = Assistant, content = PartsContent [ToolCallPart ''c1'' ''toB'' Map.empty],
            sender = Some ''A''\<rparr>,
          \<lparr>role = Tool,
            content = PartsContent [ToolResultPart ''c1'' ''toB'' (JStr ''Handing over to agent B'')],
            sender = None\<rparr>]"
        False "(exampleSwarm agentQ False)\<lparr>activeAgent := agentQ\<rparr>" 1]
    forced_return_to_queen_after_unfinished_turn
      [of "constEngine answerTurn" 100 "[userHi]" "[]"
        "(exampleSwarm agentQ False)\<lparr>activeAgent := agentB\<rparr>" answerTurn
        "[\<lparr>role = Assistant, content = StringContent ''ok'', sender = Some ''B''\<rparr>]"
        True "(exampleSwarm agentQ False)\<lparr>activeAgent := agentB\<rparr>" 1]
  by (simp add: loop_defs example_defs)

text \<open>
  C2 as stated fails. Agent B (cap 1) is active and answers in text with finish reason
  \<open>stop\<close>: the cap is configured, the engine result has exactly one assistant
  message, one assistant message is fewer than the ceiling 100, and the iteration
  leaves the loop by \<open>break\<close> with B still active; the queen is Q.
\<close>

theorem forced_return_to_queen_counterexample:
  "agent_maxTurns (activeAgent ((exampleSwarm agentQ False)\<lparr>activeAgent := agentB\<rparr>)) = Some 1
   \<and> int (assistantCount (response_messages answerTurn)) = 1
   \<and> iteration (constEngine answerTurn) 100 [userHi] []
         ((exampleSwarm agentQ False)\<lparr>activeAgent := agentB\<rparr>)
       = (Inr (answerTurn,
               [\<lparr>role = Assistant, content = StringContent ''ok'', sender = Some ''B''\<rparr>],
               True),
          (exampleSwarm agentQ False)\<lparr>activeAgent := agentB\<rparr>)
   \<and> int (assistantCount
         [\<lparr>role = Assistant, content = StringContent ''ok'', sender = Some ''B''\<rparr>]) < 100
   \<and> activeAgent ((exampleSwarm agentQ False)\<lparr>activeAgent := agentB\<rparr>) = agentB
   \<and> queen ((exampleSwarm agentQ False)\<lparr>activeAgent := agentB\<rparr>) = agentQ
   \<and> agentB \<noteq> agentQ"
  by (simp add: loop_defs example_defs)

section \<open>The record of a turn with a handover\<close>

lemma callIds_filter_keepPart:
  "concat (map callIdOf (filter (keepPart u) ps)) = filter (\<lambda>i. i \<notin> set u) (concat (map callIdOf ps))"
proof (induction ps)
  case Nil
  then show ?case by simp
next
  case (Cons p ps)
  then show ?case by (cases p) (simp_all add: keepPart_def callIdOf_def)
qed

lemma lastStepConsistent_cases:
  assumes "lastStepConsistent r"
  shows "(\<exists>pre am. response_messages r = pre @ [am] \<and> role am = Assistant \<and> toolResults r = []
            \<and> set (toolCallIdsOf am) \<subseteq> set (map toolCallId (toolCalls r)))
         \<or> (\<exists>pre am tm. response_messages r = pre @ [am, tm] \<and> role am = Assistant \<and> role tm = Tool
            \<and> set (toolCallIdsOf am) \<subseteq> set (map toolCallId (toolCalls r))
            \<and> set (map resultCallId (toolResults r)) \<subseteq> set (toolResultIdsOf tm))"
proof (cases "rev (response_messages r)")
  case Nil
  with assms show ?thesis by (simp add: lastStepConsistent_def)
next
  case (Cons m before)
  then have shape: "response_messages r = rev before @ [m]"
    by (metis rev.simps(2) rev_rev_ident)
  show ?thesis
  proof (cases "role m = Tool")
    case False
    with assms Cons shape show ?thesis by (auto simp: lastStepConsistent_def)
  next
    case True
    show ?thesis
    proof (cases before)
      case Nil
      with assms Cons True show ?thesis by (simp add: lastStepConsistent_def)
    next
      case inner: (Cons am earlier)
      with shape have "response_messages r = rev earlier @ [am, m]" by simp
      with assms Cons True inner show ?thesis by (auto simp: lastStepConsistent_def)
    qed
  qed
qed

lemma recordHandover_plain:
  assumes "recordHandover hcs (Some part) (X @ [am]) = Inr rm'"
    and "role am \<noteq> Tool"
  shows "\<exists>am'. rm' = X @ [am', \<lparr>role = Tool, content = PartsContent [part], sender = None\<rparr>]
           \<and> role am' = role am
           \<and> toolCallIdsOf am'
               = filter (\<lambda>i. i \<notin> set (map toolCallId (drop 1 hcs))) (toolCallIdsOf am)"
proof -
  have loc: "locateToolMessage (X @ [am]) = None" "locateAssistantMessage (X @ [am]) = Some (length X)"
    using assms(2) by (simp_all add: locateToolMessage_def locateAssistantMessage_def)
  have nth: "(X @ [am, \<lparr>role = Tool, content = PartsContent [part], sender = None\<rparr>]) ! length X = am"
    by (simp add: nth_append)
  show ?thesis
  proof (cases "content am")
    case (StringContent t)
    with assms(1) loc nth have "rm' = X @ [am, \<lparr>role = Tool, content = PartsContent [part], sender = None\<rparr>]"
      by (simp add: recordHandover_def attachHandoverResult_def pruneUnusedToolCalls_def Let_def)
    with StringContent show ?thesis by (simp add: toolCallIdsOf_def partsOf_def)
  next
    case (PartsContent ps)
    with assms(1) loc nth
    have "rm' = X @ [am\<lparr>content := PartsContent (filter (keepPart (map toolCallId (drop 1 hcs))) ps)\<rparr>,
                     \<lparr>role = Tool, content = PartsContent [part], sender = None\<rparr>]"
      by (auto simp: recordHandover_def attachHandoverResult_def pruneUnusedToolCalls_def Let_def
            list_update_append)
    with PartsContent show ?thesis
      by (simp add: toolCallIdsOf_def partsOf_def callIds_filter_keepPart)
  qed
qed

lemma recordHandover_answered:
  assumes "recordHandover hcs (Some part) (X @ [am, tm]) = Inr rm'"
    and "role tm = Tool"
  shows "\<exists>am' tm'. rm' = X @ [am', tm'] \<and> role am' = role am \<and> role tm' = Tool
           \<and> toolCallIdsOf am'
               = filter (\<lambda>i. i \<notin> set (map toolCallId (drop 1 hcs))) (toolCallIdsOf am)
           \<and> partsOf tm' = partsOf tm @ [part]"
proof -
  have loc: "locateToolMessage (X @ [am, tm]) = Some (Suc (length X))"
    "locateAssistantMessage (X @ [am, tm]) = Some (length X)"
    using assms(2) by (simp_all add: locateToolMessage_def locateAssistantMessage_def)
  have nth: "(X @ [am, tm]) ! Suc (length X) = tm"
    by (simp add: nth_append)
  show ?thesis
  proof (cases "content tm")
    case (StringContent t)
    with assms(1) loc nth show ?thesis
      by (simp add: recordHandover_def attachHandoverResult_def Let_def)
  next
    case tparts: (PartsContent rs)
    define tm' where "tm' = tm\<lparr>content := PartsContent (rs @ [part])\<rparr>"
    from tparts loc nth
    have att: "attachHandoverResult (Some part) (X @ [am, tm]) = Inr (X @ [am, tm'])"
      by (simp add: attachHandoverResult_def tm'_def list_update_append)
    have nth': "(X @ [am, tm']) ! length X = am" by (simp add: nth_append)
    have tm'_ok: "role tm' = Tool" "partsOf tm' = partsOf tm @ [part]"
      using assms(2) tparts by (simp_all add: tm'_def partsOf_def)
    show ?thesis
    proof (cases "content am")
      case (StringContent t)
      with assms(1) loc att nth' have "rm' = X @ [am, tm']"
        by (simp add: recordHandover_def pruneUnusedToolCalls_def Let_def)
      with StringContent tm'_ok show ?thesis by (simp add: toolCallIdsOf_def partsOf_def)
    next
      case (PartsContent ps)
      with assms(1) loc att nth'
      have "rm' = X @ [am\<lparr>content := PartsContent (filter (keepPart (map toolCallId (drop 1 hcs))) ps)\<rparr>, tm']"
        by (auto simp: recordHandover_def pruneUnusedToolCalls_def Let_def list_update_append)
      with PartsContent tm'_ok show ?thesis
        by (simp add: toolCallIdsOf_def partsOf_def callIds_filter_keepPart)
    qed
  qed
qed

text \<open>
  The handover calls are the unhandled calls that name a handover tool of the active
  agent, in the order the engine reported them.
\<close>

lemma filterHandover_is_filter:
  "filterHandover a tcs = Inr hcs \<Longrightarrow> hcs = filter (\<lambda>tc. isHandoverCall a tc = Inr True) tcs"
proof (induction tcs arbitrary: hcs)
  case Nil
  then show ?case by simp
next
  case (Cons tc tcs)
  then show ?case by (auto split: sum.splits if_splits)
qed

lemma findHandoverCalls_is_filter:
  "findHandoverCalls a r = Inr hcs \<Longrightarrow>
     hcs = filter (\<lambda>tc. isHandoverCall a tc = Inr True) (unhandledToolCalls r)"
  unfolding findHandoverCalls_def by (rule filterHandover_is_filter)

lemma executeHandover_Inr:
  assumes "executeHandover hc s = (Inr part, s1)"
  shows "part = handoverToolResult hc (activeAgent s1)"
  using assms
  by (auto simp: executeHandover_def applyHandoverResult_def Let_def
           split: option.splits agentTool.splits sum.splits prod.splits)

lemma call_answered_or_first:
  assumes "unhandledToolCalls r = hc # rest"
    and "i \<in> set (map toolCallId (toolCalls r))"
    and "i \<notin> set (map toolCallId rest)"
  shows "i \<in> set (map resultCallId (toolResults r)) \<or> i = toolCallId hc"
proof (cases "i \<in> set (map resultCallId (toolResults r))")
  case True
  then show ?thesis by simp
next
  case False
  from assms(2) obtain c where c: "c \<in> set (toolCalls r)" "toolCallId c = i" by auto
  with False have "c \<in> set (unhandledToolCalls r)"
    by (simp add: unhandledToolCalls_def Let_def)
  with assms(1) have "c = hc \<or> c \<in> set rest" by simp
  with c assms(3) show ?thesis by auto
qed

lemma recordHandover_shape:
  assumes "recordHandover hcs (Some part) rm1 = Inr rm'"
  shows "\<exists>am' tm'. rm' = take (length rm' - 2) rm' @ [am', tm'] \<and> role tm' = Tool
           \<and> part \<in> set (partsOf tm')
           \<and> (\<forall>c \<in> set (drop 1 hcs). toolCallId c \<notin> set (toolCallIdsOf am'))"
proof (cases "locateToolMessage rm1")
  case None
  show ?thesis
  proof (cases "rm1 = []")
    case True
    with assms None show ?thesis
      by (simp add: recordHandover_def attachHandoverResult_def pruneUnusedToolCalls_def
            locateAssistantMessage_def Let_def)
  next
    case False
    then obtain X am where shape: "rm1 = X @ [am]" by (metis append_butlast_last_id)
    with None have "role am \<noteq> Tool"
      by (auto simp: locateToolMessage_def split: if_splits)
    from recordHandover_plain [OF assms [unfolded shape] this] obtain am' where
      "rm' = X @ [am', \<lparr>role = Tool, content = PartsContent [part], sender = None\<rparr>]"
      "toolCallIdsOf am' = filter (\<lambda>i. i \<notin> set (map toolCallId (drop 1 hcs))) (toolCallIdsOf am)"
      by blast
    then show ?thesis by (auto simp: partsOf_def)
  qed
next
  case (Some i)
  then have ne: "rm1 \<noteq> []" and tool: "role (last rm1) = Tool"
    by (auto simp: locateToolMessage_def split: if_splits)
  show ?thesis
  proof (cases "length rm1 < 2")
    case True
    with assms Some show ?thesis
      by (auto simp: recordHandover_def attachHandoverResult_def pruneUnusedToolCalls_def
            locateAssistantMessage_def Let_def split: messageContent.splits)
  next
    case False
    with ne obtain Y tm where y: "rm1 = Y @ [tm]" by (metis append_butlast_last_id)
    with False have "Y \<noteq> []" by auto
    then obtain X am where "Y = X @ [am]" by (metis append_butlast_last_id)
    with y have shape: "rm1 = X @ [am, tm]" by simp
    with tool have "role tm = Tool" by simp
    from recordHandover_answered [OF assms [unfolded shape] this] obtain am' tm' where
      "rm' = X @ [am', tm']" "role tm' = Tool"
      "toolCallIdsOf am' = filter (\<lambda>i. i \<notin> set (map toolCallId (drop 1 hcs))) (toolCallIdsOf am)"
      "partsOf tm' = partsOf tm @ [part]"
      by blast
    then show ?thesis by auto
  qed
qed

text \<open>
  C1, as the code has it. Take a turn whose engine result has none of the finish
  reasons stop, length, content-filter and error and leaves handover calls unhandled,
  and that ends without a throw. Then the handover executed is the first unhandled
  handover call's and no other: the swarm after the turn is the one its execution
  leaves, up to the forced return to the queen. The record of the turn ends with a
  message followed by a tool message; the tool message holds the synthesized result
  for the first call; and no tool-call part with the id of a later handover call is
  left in the message before it. When moreover the engine left unanswered only calls
  of handover tools and recorded its last step consistently
  (\<open>lastStepConsistent\<close>), the message before the tool message is the turn's
  assistant message and every tool-call id left in it has a result in the tool
  message.
\<close>

theorem first_handover_honoured_and_record_consistent:
  assumes "eng (engineCallOf mts im rm s) (swarmContext s) = (Inr r, ctx)"
    and "iteration eng mts im rm s = (Inr (r', rm', brk), s')"
    and "\<not> isTerminal (finishReason r)"
    and "findHandoverCalls (activeAgent s) r = Inr (hc # rest)"
  shows "fst (executeHandover hc (s\<lparr>swarmContext := ctx\<rparr>))
           = Inr (handoverToolResult hc (activeAgent (snd (executeHandover hc (s\<lparr>swarmContext := ctx\<rparr>)))))
         \<and> s' = forcedReturn (activeAgent s) r mts rm' (snd (executeHandover hc (s\<lparr>swarmContext := ctx\<rparr>)))
         \<and> 2 \<le> length rm'
         \<and> role (last rm') = Tool
         \<and> handoverToolResult hc (activeAgent (snd (executeHandover hc (s\<lparr>swarmContext := ctx\<rparr>))))
             \<in> set (partsOf (last rm'))
         \<and> (\<forall>c \<in> set rest. toolCallId c \<notin> set (toolCallIdsOf (rm' ! (length rm' - 2))))
         \<and> (unhandledToolCalls r = hc # rest \<and> lastStepConsistent r \<longrightarrow>
               role (rm' ! (length rm' - 2)) = Assistant
               \<and> set (toolCallIdsOf (rm' ! (length rm' - 2))) \<subseteq> set (toolResultIdsOf (last rm')))"
proof -
  define se where "se = s\<lparr>swarmContext := ctx\<rparr>"
  define a where "a = activeAgent s"
  have ae: "afterEngine a mts r rm se = (Inr (r', rm', brk), s')"
    using assms(1,2) by (simp add: iteration_def Let_def se_def a_def)
  have act: "activeAgent se = a" by (simp add: se_def a_def)
  have found: "findHandoverCalls (activeAgent se) r = Inr (hc # rest)"
    using assms(4) by (simp add: se_def)
  from afterEngine_continue [OF ae assms(3)] obtain hcs hr s1 where
    "findHandoverCalls (activeAgent se) r = Inr hcs" and
    p0: "processHandoverCalls hcs se = (Inr hr, s1)" and
    rec0: "recordHandover hcs hr (rm @ map (tagSender (activeAgent se)) (response_messages r)) = Inr rm'" and
    s': "s' = forcedReturn a r mts rm' s1"
    by blast
  with found have hcs: "hcs = hc # rest" by simp
  from p0 hcs have p: "processHandoverCalls (hc # rest) se = (Inr hr, s1)" by simp
  obtain v s2 where ex: "executeHandover hc se = (v, s2)" by (cases "executeHandover hc se")
  with p obtain part where v: "v = Inr part" and hr: "hr = Some part" and s2: "s2 = s1"
    by (cases v) (auto simp: processHandoverCalls_def)
  from rec0 hcs act hr
  have rec: "recordHandover (hc # rest) (Some part) (rm @ map (tagSender a) (response_messages r)) = Inr rm'"
    by simp
  from executeHandover_Inr [of hc se part s1] ex v s2
  have part: "part = handoverToolResult hc (activeAgent s1)" by simp
  have pid: "resultIdOf part = [toolCallId hc]"
    by (simp add: part handoverToolResult_def resultIdOf_def)
  let ?unused = "map toolCallId (drop 1 (hc # rest))"
  have general: "2 \<le> length rm' \<and> role (last rm') = Tool \<and> part \<in> set (partsOf (last rm'))
       \<and> (\<forall>c \<in> set rest. toolCallId c \<notin> set (toolCallIdsOf (rm' ! (length rm' - 2))))"
  proof -
    from recordHandover_shape [OF rec] obtain am' tm' where
      sh: "rm' = take (length rm' - 2) rm' @ [am', tm']" and
      facts: "role tm' = Tool" "part \<in> set (partsOf tm')"
        "\<forall>c \<in> set rest. toolCallId c \<notin> set (toolCallIdsOf am')"
      by auto
    from sh have len: "2 \<le> length rm'"
      by (metis One_nat_def Suc_1 length_Cons length_append le_add2 list.size(3))
    from sh have "last rm' = tm'" by (metis last_appendR last.simps list.distinct(1))
    moreover from sh len have "rm' ! (length rm' - 2) = am'"
      by (metis length_take min.absorb2 diff_le_self nth_append_length)
    ultimately show ?thesis using len facts by simp
  qed
  have covered: "\<And>i am. unhandledToolCalls r = hc # rest \<Longrightarrow>
      set (toolCallIdsOf am) \<subseteq> set (map toolCallId (toolCalls r)) \<Longrightarrow>
      i \<in> set (filter (\<lambda>i. i \<notin> set ?unused) (toolCallIdsOf am)) \<Longrightarrow>
      i \<in> set (map resultCallId (toolResults r)) \<or> i = toolCallId hc"
  proof -
    fix i am
    assume un: "unhandledToolCalls r = hc # rest"
      and sub: "set (toolCallIdsOf am) \<subseteq> set (map toolCallId (toolCalls r))"
      and i: "i \<in> set (filter (\<lambda>i. i \<notin> set ?unused) (toolCallIdsOf am))"
    from i sub have "i \<in> set (map toolCallId (toolCalls r))" "i \<notin> set (map toolCallId rest)"
      by auto
    from call_answered_or_first [OF un this]
    show "i \<in> set (map resultCallId (toolResults r)) \<or> i = toolCallId hc" .
  qed
  have specific: "unhandledToolCalls r = hc # rest \<and> lastStepConsistent r \<longrightarrow>
       role (rm' ! (length rm' - 2)) = Assistant
       \<and> set (toolCallIdsOf (rm' ! (length rm' - 2))) \<subseteq> set (toolResultIdsOf (last rm'))"
  proof
    assume both: "unhandledToolCalls r = hc # rest \<and> lastStepConsistent r"
    then have un: "unhandledToolCalls r = hc # rest" and cons: "lastStepConsistent r" by simp_all
    from lastStepConsistent_cases [OF cons]
    consider (plain) pre am where "response_messages r = pre @ [am]" "role am = Assistant"
        "toolResults r = []" "set (toolCallIdsOf am) \<subseteq> set (map toolCallId (toolCalls r))"
      | (answered) pre am tm where "response_messages r = pre @ [am, tm]" "role am = Assistant"
        "role tm = Tool" "set (toolCallIdsOf am) \<subseteq> set (map toolCallId (toolCalls r))"
        "set (map resultCallId (toolResults r)) \<subseteq> set (toolResultIdsOf tm)"
      by blast
    then show "role (rm' ! (length rm' - 2)) = Assistant
       \<and> set (toolCallIdsOf (rm' ! (length rm' - 2))) \<subseteq> set (toolResultIdsOf (last rm'))"
    proof cases
      case plain
      let ?X = "rm @ map (tagSender a) pre"
      let ?am = "tagSender a am"
      have ids: "toolCallIdsOf ?am = toolCallIdsOf am" "role ?am = Assistant"
        using plain(2) by (simp_all add: tagSender_def toolCallIdsOf_def partsOf_def)
      from rec plain(1) have "recordHandover (hc # rest) (Some part) (?X @ [?am]) = Inr rm'"
        by simp
      from recordHandover_plain [OF this] ids(2) obtain am' where
        rm': "rm' = ?X @ [am', \<lparr>role = Tool, content = PartsContent [part], sender = None\<rparr>]" and
        role': "role am' = Assistant" and
        calls': "toolCallIdsOf am' = filter (\<lambda>i. i \<notin> set ?unused) (toolCallIdsOf ?am)"
        by auto
      have am_at: "rm' ! (length rm' - 2) = am'" by (simp add: rm' nth_append)
      have last_at: "last rm' = \<lparr>role = Tool, content = PartsContent [part], sender = None\<rparr>"
        by (simp add: rm')
      have res: "toolResultIdsOf (last rm') = [toolCallId hc]"
        by (simp add: last_at toolResultIdsOf_def partsOf_def pid)
      have sub: "set (toolCallIdsOf am') \<subseteq> {toolCallId hc}"
      proof
        fix i assume "i \<in> set (toolCallIdsOf am')"
        then have "i \<in> set (filter (\<lambda>i. i \<notin> set ?unused) (toolCallIdsOf am))"
          by (simp only: calls' ids(1))
        from covered [OF un plain(4) this] plain(3) show "i \<in> {toolCallId hc}" by simp
      qed
      from role' am_at res sub show ?thesis by simp
    next
      case answered
      let ?X = "rm @ map (tagSender a) pre"
      let ?am = "tagSender a am"
      let ?tm = "tagSender a tm"
      have ids: "toolCallIdsOf ?am = toolCallIdsOf am" "role ?am = Assistant" "role ?tm = Tool"
        "partsOf ?tm = partsOf tm"
        using answered(2,3) by (simp_all add: tagSender_def toolCallIdsOf_def partsOf_def)
      from rec answered(1) have "recordHandover (hc # rest) (Some part) (?X @ [?am, ?tm]) = Inr rm'"
        by simp
      from recordHandover_answered [OF this ids(3)] ids(2) obtain am' tm' where
        rm': "rm' = ?X @ [am', tm']" and
        role': "role am' = Assistant" "role tm' = Tool" and
        calls': "toolCallIdsOf am' = filter (\<lambda>i. i \<notin> set ?unused) (toolCallIdsOf ?am)" and
        parts': "partsOf tm' = partsOf ?tm @ [part]"
        by auto
      have am_at: "rm' ! (length rm' - 2) = am'" by (simp add: rm' nth_append)
      have last_at: "last rm' = tm'" by (simp add: rm')
      have res: "toolResultIdsOf tm' = toolResultIdsOf tm @ [toolCallId hc]"
        by (simp add: toolResultIdsOf_def parts' ids(4) pid)
      have sub: "set (toolCallIdsOf am') \<subseteq> set (toolResultIdsOf tm')"
      proof
        fix i assume "i \<in> set (toolCallIdsOf am')"
        then have "i \<in> set (filter (\<lambda>i. i \<notin> set ?unused) (toolCallIdsOf am))"
          by (simp only: calls' ids(1))
        from covered [OF un answered(4) this] answered(5) show "i \<in> set (toolResultIdsOf tm')"
          by (auto simp: res)
      qed
      from role' am_at last_at sub show ?thesis by simp
    qed
  qed
  from ex v s2 part
  have "fst (executeHandover hc se) = Inr (handoverToolResult hc (activeAgent (snd (executeHandover hc se))))"
    by simp
  moreover from s' ex s2 have "s' = forcedReturn a r mts rm' (snd (executeHandover hc se))"
    by simp
  moreover from general part ex s2
  have "2 \<le> length rm' \<and> role (last rm') = Tool
       \<and> handoverToolResult hc (activeAgent (snd (executeHandover hc se))) \<in> set (partsOf (last rm'))
       \<and> (\<forall>c \<in> set rest. toolCallId c \<notin> set (toolCallIdsOf (rm' ! (length rm' - 2))))"
    by simp
  ultimately show ?thesis using specific unfolding se_def a_def by blast
qed

text \<open>
  Agent M's turn: the engine answered the call \<open>c1\<close> of the function tool and left
  the handover calls \<open>c2\<close> and \<open>c3\<close>. The handover of \<open>c2\<close> is executed (B
  becomes active), its result joins the tool message, and the part of \<open>c3\<close> is
  gone from the assistant message.
\<close>

theorem first_handover_honoured_and_record_consistent_witness:
  "constEngine mixedTurn (engineCallOf 100 [userHi] [] (exampleSwarm agentM False))
       (swarmContext (exampleSwarm agentM False)) = (Inr mixedTurn, [''k'' \<mapsto> JNum 5])
   \<and> iteration (constEngine mixedTurn) 100 [userHi] [] (exampleSwarm agentM False)
       = (Inr (mixedTurn, mixedRecord, False), (exampleSwarm agentM False)\<lparr>activeAgent := agentB\<rparr>)
   \<and> \<not> isTerminal (finishReason mixedTurn)
   \<and> findHandoverCalls (activeAgent (exampleSwarm agentM False)) mixedTurn
       = Inr [ToolCall ''c2'' ''toB'' Map.empty, ToolCall ''c3'' ''toB'' Map.empty]
   \<and> unhandledToolCalls mixedTurn
       = [ToolCall ''c2'' ''toB'' Map.empty, ToolCall ''c3'' ''toB'' Map.empty]
   \<and> lastStepConsistent mixedTurn
   \<and> toolCallIdsOf (mixedRecord ! (length mixedRecord - 2)) = [''c1'', ''c2'']
   \<and> toolResultIdsOf (last mixedRecord) = [''c1'', ''c2'']
   \<and> handoverToolResult (ToolCall ''c2'' ''toB'' Map.empty) agentB \<in> set (partsOf (last mixedRecord))"
  using first_handover_honoured_and_record_consistent
      [of "constEngine mixedTurn" 100 "[userHi]" "[]" "exampleSwarm agentM False" mixedTurn
        "[''k'' \<mapsto> JNum 5]" mixedTurn mixedRecord False
        "(exampleSwarm agentM False)\<lparr>activeAgent := agentB\<rparr>"
        "ToolCall ''c2'' ''toB'' Map.empty" "[ToolCall ''c3'' ''toB'' Map.empty]"]
  by (simp add: loop_defs example_defs lastStepConsistent_def toolCallIdsOf_def
        toolResultIdsOf_def partsOf_def callIdOf_def resultIdOf_def)

text \<open>
  C1 as stated fails. The queen's turn calls the handover tool once and the engine
  reports the finish reason \<open>stop\<close>: the call is an unhandled handover call, the
  iteration leaves the loop by \<open>break\<close> before looking at it, the queen stays
  active (executing the call would have made B active), and the history ends with
  an assistant message whose tool call \<open>c1\<close> has no result.
\<close>

theorem first_handover_honoured_counterexample:
  "findHandoverCalls (activeAgent (exampleSwarm agentQ False)) stoppedHandoverTurn
     = Inr [ToolCall ''c1'' ''toB'' Map.empty]
   \<and> iteration (constEngine stoppedHandoverTurn) 100 [userHi] [] (exampleSwarm agentQ False)
       = (Inr (stoppedHandoverTurn, orphanRecord, True), exampleSwarm agentQ False)
   \<and> activeAgent (exampleSwarm agentQ False) = agentQ
   \<and> activeAgent (snd (executeHandover (ToolCall ''c1'' ''toB'' Map.empty)
         (exampleSwarm agentQ False))) = agentB
   \<and> agentB \<noteq> agentQ
   \<and> toolCallIdsOf (last orphanRecord) = [''c1'']
   \<and> concat (map toolResultIdsOf orphanRecord) = []
   \<and> generateText (Suc 0) (constEngine stoppedHandoverTurn) (contentOptions None)
         (exampleSwarm agentQ False)
       = Some (Inr \<lparr> out_finishReason = Stop, out_activeAgent = agentQ, out_text = [],
                      out_messages = orphanRecord, out_context = [''k'' \<mapsto> JNum 5] \<rparr>,
               (exampleSwarm agentQ False)\<lparr>messages := orphanRecord\<rparr>)"
  by (simp add: loop_defs example_defs toolCallIdsOf_def toolResultIdsOf_def partsOf_def
        callIdOf_def resultIdOf_def)

section \<open>What generateText stores and returns\<close>

























text \<open>
  The constructor sets the swarm's flag from its option; nothing writes it afterwards
  (\<open>runLoop_frame\<close>).
\<close>

lemma newSwarm_returnToQueen:
  "returnToQueen (newSwarm options) = (so_returnToQueen options = Some True)"
  by (simp add: newSwarm_def split: option.splits)

text \<open>
  C3, as the code has it. On a swarm whose flag \<open>returnToQueen\<close> is set, the stored
  active agent is reset to the queen before the result is built, so the
  \<open>activeAgent\<close> that \<open>generateText\<close> returns is the queen, as is the stored one.
\<close>

theorem generateText_returns_queen_under_flag:
  assumes "returnToQueen s"
    and "generateText fuel eng options s = Some (Inr out, s')"
  shows "out_activeAgent out = queen s \<and> activeAgent s' = queen s \<and> queen s' = queen s"
proof -
  from assms(2) obtain r rm s1 where
    rl: "runLoop fuel eng options s = Some (Inr (r, rm), s1)" and
    fin: "finish r rm s1 = (out, s')"
    by (auto simp: generateText_def split: option.splits sum.splits prod.splits)
  from runLoop_frame [OF rl] assms(1) have "queen s1 = queen s" "returnToQueen s1" by simp_all
  with fin show ?thesis by (auto simp: finish_def Let_def)
qed

theorem generateText_returns_queen_under_flag_witness:
  "returnToQueen (exampleSwarm agentQ True)
   \<and> generateText (Suc (Suc (Suc 0))) scriptedEngine (contentOptions None) (exampleSwarm agentQ True)
       = Some (Inr \<lparr> out_finishReason = Stop, out_activeAgent = agentQ, out_text = ''ok'',
                      out_messages = handoverRecord, out_context = [''k'' \<mapsto> JNum 5] \<rparr>,
               (exampleSwarm agentQ True)\<lparr>activeAgent := agentQ, messages := handoverRecord\<rparr>)
   \<and> queen (exampleSwarm agentQ True) = agentQ"
  using generateText_returns_queen_under_flag
      [OF _ generateText_scripted [of None True, simplified]]
    generateText_scripted [of None True]
  by (simp add: exampleSwarm_def newSwarm_def)

text \<open>
  C3 as stated fails. With the flag set, the queen hands over to B and B answers: B
  is the active agent when the loop ends, and the \<open>activeAgent\<close> returned is the
  queen Q, not B.
\<close>

theorem generateText_reports_terminal_agent_counterexample:
  "returnToQueen (exampleSwarm agentQ True)
   \<and> map_option (activeAgent \<circ> snd)
        (runLoop (Suc (Suc (Suc 0))) scriptedEngine (contentOptions None)
           (exampleSwarm agentQ True)) = Some agentB
   \<and> map_option (map_sum id out_activeAgent \<circ> fst)
        (generateText (Suc (Suc (Suc 0))) scriptedEngine (contentOptions None)
           (exampleSwarm agentQ True)) = Some (Inr agentQ)
   \<and> agentB \<noteq> agentQ"
  by (simp add: generateText_scripted runLoop_scripted agentB_neq_agentQ)
     (simp add: exampleSwarm_def newSwarm_def)

text \<open>
  C4 fails on the code. The invocation option \<open>returnToQueen\<close> is declared ("should
  control of the swarm be returned to the queen post-completion?") and never read:
  only the swarm's own flag is tested. With the swarm's flag false and the
  invocation's flag true, the queen hands over to B, B answers, and the stored
  active agent after the call is B, not the queen Q.
\<close>

theorem generateText_ignores_invocation_returnToQueen:
  "io_returnToQueen (contentOptions (Some True)) = Some True
   \<and> \<not> returnToQueen (exampleSwarm agentQ False)
   \<and> queen (exampleSwarm agentQ False) = agentQ
   \<and> map_option (activeAgent \<circ> snd)
        (generateText (Suc (Suc (Suc 0))) scriptedEngine (contentOptions (Some True))
           (exampleSwarm agentQ False)) = Some agentB
   \<and> agentB \<noteq> agentQ"
  by (simp add: generateText_scripted agentB_neq_agentQ)
     (simp add: exampleSwarm_def newSwarm_def contentOptions_def)

section \<open>Failures\<close>



end
